theory Spec2Isabelle
  imports Main
begin

section \<open>Clock readings and durations\<close>

text \<open>
  The cache reads the clock with \<^verbatim>\<open>time.Now()\<close>, adds a \<^verbatim>\<open>time.Duration\<close> to the
  reading with \<^verbatim>\<open>Time.Add\<close> and compares two instants with \<^verbatim>\<open>Time.After\<close>. These are
  functions of Go's standard library, so they enter the model as a small interface:
  an instant is a number of nanoseconds on one time line, a duration is a signed number
  of nanoseconds (Go's \<^verbatim>\<open>int64\<close>; \<^verbatim>\<open>Time.Add\<close> does not wrap around, and the sum of a
  present-day clock reading and any \<^verbatim>\<open>int64\<close> duration is a representable instant),
  \<^verbatim>\<open>t.Add(d)\<close> is \<open>t + d\<close> and \<^verbatim>\<open>t.After(u)\<close> is the strict \<open>u < t\<close>.

  Every method that calls \<^verbatim>\<open>time.Now()\<close> takes the reading as its argument \<open>now\<close>.
\<close>

type_synonym time = int
type_synonym duration = int

definition time_Add :: "time \<Rightarrow> duration \<Rightarrow> time" where
  "time_Add t d = t + d"

definition time_After :: "time \<Rightarrow> time \<Rightarrow> bool" where
  "time_After t u \<longleftrightarrow> u < t"

section \<open>The cache with a janitor (\<^verbatim>\<open>simple_cache.go\<close>)\<close>

text \<open>
  \<^verbatim>\<open>cacheItem[T]\<close> and \<^verbatim>\<open>SimpleCache[T]\<close>. The field \<^verbatim>\<open>value\<close> is \<open>itemValue\<close> and
  the channel \<^verbatim>\<open>done\<close> is \<open>doneClosed\<close> (both names are keywords here); of the channel
  only whether it has been closed matters, since nothing is ever sent on it. The
  \<^verbatim>\<open>sync.WaitGroup\<close> is its counter, the \<^verbatim>\<open>sync.Once\<close> is its flag. The mutex is not
  a field of the model: every method body and every sweep runs inside one critical
  section of the lock, so each is one atomic transition of the state. \<open>janitorAt\<close> is
  the place where the janitor goroutine stands: created and not yet run, inside its
  loop, or out of the function \<^verbatim>\<open>janitor\<close> (by \<^verbatim>\<open>return\<close>, or by a panic that has
  unwound it).
\<close>

record 'a cacheItem =
  itemValue :: 'a
  expiryTime :: time

datatype goroutine = Spawned | Looping | Returned

record 'a SimpleCache =
  data :: "string \<rightharpoonup> 'a cacheItem"
  cleanupInterval :: duration
  doneClosed :: bool
  wg :: int
  closeOnce :: bool
  janitorAt :: goroutine

text \<open>
  What can stop an operation from returning: the three panics of the standard library
  that the code can reach, and waiting for ever.
\<close>

datatype failure =
  PanicNonPositiveInterval
  | PanicCloseOfClosedChannel
  | PanicNegativeWaitGroupCounter
  | BlockedForever

text \<open>\<^verbatim>\<open>NewSimpleCache\<close>: the goroutine is created, it has not run yet.\<close>

definition NewSimpleCache :: "duration \<Rightarrow> 'a SimpleCache" where
  "NewSimpleCache interval =
     \<lparr>data = Map.empty, cleanupInterval = interval, doneClosed = False, wg = 1,
      closeOnce = False, janitorAt = Spawned\<rparr>"

definition Set :: "'a SimpleCache \<Rightarrow> time \<Rightarrow> string \<Rightarrow> duration \<Rightarrow> 'a \<Rightarrow> 'a SimpleCache" where
  "Set c now key expiryDur v =
     c\<lparr>data := (data c)(key \<mapsto> \<lparr>itemValue = v, expiryTime = time_Add now expiryDur\<rparr>)\<rparr>"

text \<open>
  \<^verbatim>\<open>Get\<close> returns the pair of the source and the cache after the call; \<open>zero\<close> is
  the zero value of the type parameter.
\<close>

definition Get :: "'a SimpleCache \<Rightarrow> 'a \<Rightarrow> time \<Rightarrow> string \<Rightarrow> ('a \<times> bool) \<times> 'a SimpleCache" where
  "Get c zero now key =
     (case data c key of
        None \<Rightarrow> ((zero, False), c)
      | Some item \<Rightarrow>
          if time_After now (expiryTime item) then ((zero, False), c)
          else ((itemValue item, True), c))"

subsection \<open>The janitor goroutine\<close>

text \<open>
  \<^verbatim>\<open>time.NewTicker(d)\<close> of the standard library panics when \<open>d\<close> is not positive
  ("non-positive interval for NewTicker"); otherwise it delivers ticks every \<open>d\<close>.
\<close>

definition NewTicker :: "duration \<Rightarrow> failure + duration" where
  "NewTicker d = (if d \<le> 0 then Inl PanicNonPositiveInterval else Inr d)"

text \<open>
  \<^verbatim>\<open>c.wg.Done()\<close> panics when the counter would become negative. The janitor defers it
  in its first statement, so it runs whenever the janitor leaves its function.
\<close>

definition wg_Done :: "'a SimpleCache \<Rightarrow> failure + 'a SimpleCache" where
  "wg_Done c =
     (if wg c - 1 < 0 then Inl PanicNegativeWaitGroupCounter else Inr (c\<lparr>wg := wg c - 1\<rparr>))"

text \<open>
  The janitor is a goroutine with no \<^verbatim>\<open>recover\<close>: a panic in it ends the process. Before
  that the panic unwinds the function and the deferred \<^verbatim>\<open>c.wg.Done()\<close> runs. So the
  janitor ends in one of two ways: \<open>Inr\<close> with the cache as it is when the goroutine
  stops or waits, or \<open>Inl\<close> with the panic that ends the process and the cache as the
  unwinding leaves it. A panic of the deferred \<^verbatim>\<open>Done\<close> itself takes the place of the
  panic that was under way.
\<close>

definition janitor_panic ::
  "failure \<Rightarrow> 'a SimpleCache \<Rightarrow> (failure \<times> 'a SimpleCache) + 'a SimpleCache" where
  "janitor_panic p c =
     (case wg_Done (c\<lparr>janitorAt := Returned\<rparr>) of
        Inl q \<Rightarrow> Inl (q, c\<lparr>janitorAt := Returned\<rparr>)
      | Inr c' \<Rightarrow> Inl (p, c'))"

text \<open>
  The prologue of \<^verbatim>\<open>janitor\<close>, up to the first \<^verbatim>\<open>select\<close>: \<^verbatim>\<open>defer c.wg.Done()\<close>, then
  \<^verbatim>\<open>time.NewTicker(c.cleanupInterval)\<close>, then \<^verbatim>\<open>defer ticker.Stop()\<close>.
\<close>

definition janitor_start :: "'a SimpleCache \<Rightarrow> (failure \<times> 'a SimpleCache) + 'a SimpleCache" where
  "janitor_start c =
     (case NewTicker (cleanupInterval c) of
        Inl p \<Rightarrow> janitor_panic p c
      | Inr ticker \<Rightarrow> Inr (c\<lparr>janitorAt := Looping\<rparr>))"

text \<open>
  The branch \<^verbatim>\<open>case <-ticker.C\<close>. The \<^verbatim>\<open>range\<close> loop visits every key of the map once,
  in an order that Go leaves open; \<open>keys\<close> is that order. The body deletes only the key
  it stands on, so the item it sees is the one stored under that key.
\<close>

definition sweep_key :: "time \<Rightarrow> string \<Rightarrow> (string \<rightharpoonup> 'a cacheItem) \<Rightarrow> (string \<rightharpoonup> 'a cacheItem)" where
  "sweep_key now k m =
     (case m k of
        None \<Rightarrow> m
      | Some it \<Rightarrow> if time_After now (expiryTime it) then m(k := None) else m)"

definition janitor_tick :: "'a SimpleCache \<Rightarrow> time \<Rightarrow> string list \<Rightarrow> 'a SimpleCache" where
  "janitor_tick c now keys = c\<lparr>data := fold (sweep_key now) keys (data c)\<rparr>"

text \<open>
  The branch \<^verbatim>\<open>case <-c.done\<close>: the function returns and its deferred calls run,
  \<^verbatim>\<open>ticker.Stop()\<close> and \<^verbatim>\<open>c.wg.Done()\<close>. The branch can be taken only once the channel
  is closed; until then a janitor asked to take it goes on waiting.
\<close>

definition janitor_done :: "'a SimpleCache \<Rightarrow> (failure \<times> 'a SimpleCache) + 'a SimpleCache" where
  "janitor_done c =
     (if doneClosed c
      then (case wg_Done (c\<lparr>janitorAt := Returned\<rparr>) of
              Inl q \<Rightarrow> Inl (q, c\<lparr>janitorAt := Returned\<rparr>)
            | Inr c' \<Rightarrow> Inr c')
      else Inl (BlockedForever, c))"

text \<open>
  The loop \<^verbatim>\<open>for { select { ... } }\<close>: each round takes the branch whose channel is
  ready. The list gives the branches in the order in which the rounds take them; when it
  is used up the goroutine is waiting in \<^verbatim>\<open>select\<close>. \<^verbatim>\<open>janitor\<close> is the whole function.
\<close>

datatype select_case = TickerC time "string list" | DoneC

fun janitor_loop ::
  "'a SimpleCache \<Rightarrow> select_case list \<Rightarrow> (failure \<times> 'a SimpleCache) + 'a SimpleCache" where
  "janitor_loop c [] = Inr c"
| "janitor_loop c (TickerC now keys # rounds) = janitor_loop (janitor_tick c now keys) rounds"
| "janitor_loop c (DoneC # rounds) = janitor_done c"

definition janitor ::
  "'a SimpleCache \<Rightarrow> select_case list \<Rightarrow> (failure \<times> 'a SimpleCache) + 'a SimpleCache" where
  "janitor c rounds =
     (case janitor_start c of
        Inl pc \<Rightarrow> Inl pc
      | Inr c' \<Rightarrow> janitor_loop c' rounds)"

subsection \<open>Close\<close>

text \<open>
  \<^verbatim>\<open>close(c.done)\<close> panics on a closed channel; \<^verbatim>\<open>closeOnce.Do\<close> runs its argument
  only while the flag of the \<^verbatim>\<open>Once\<close> is down.
\<close>

definition close_done :: "'a SimpleCache \<Rightarrow> failure + 'a SimpleCache" where
  "close_done c =
     (if doneClosed c then Inl PanicCloseOfClosedChannel else Inr (c\<lparr>doneClosed := True\<rparr>))"

definition closeOnce_Do :: "'a SimpleCache \<Rightarrow> failure + 'a SimpleCache" where
  "closeOnce_Do c =
     (if closeOnce c then Inr c
      else case close_done c of
             Inl p \<Rightarrow> Inl p
           | Inr c' \<Rightarrow> Inr (c'\<lparr>closeOnce := True\<rparr>))"

text \<open>
  \<^verbatim>\<open>c.wg.Wait()\<close> returns at once when the counter is zero. Otherwise it waits for the
  janitor, the only goroutine that calls \<^verbatim>\<open>Done\<close>: the janitor runs from where it
  stands until it leaves its function. The sweeps that the janitor may still make before
  it sees the closed channel touch \<open>data\<close> only and \<^verbatim>\<open>Close\<close> touches everything but
  \<open>data\<close>, so they are transitions \<open>janitor_tick\<close> of their own, ordered before the
  \<^verbatim>\<open>Close\<close>.

  \<^verbatim>\<open>Wait\<close> is released as soon as the counter is zero, also when it is the deferred
  \<^verbatim>\<open>Done\<close> of a panicking janitor that has brought it there: then \<^verbatim>\<open>Wait\<close> can return
  to its caller while the runtime ends the process. When the janitor has panicked and
  the counter is not zero, \<^verbatim>\<open>Wait\<close> stays blocked until the process ends.
\<close>

definition janitor_exit :: "'a SimpleCache \<Rightarrow> (failure \<times> 'a SimpleCache) + 'a SimpleCache" where
  "janitor_exit c =
     (case janitorAt c of
        Spawned \<Rightarrow> janitor c [DoneC]
      | Looping \<Rightarrow> janitor_loop c [DoneC]
      | Returned \<Rightarrow> Inl (BlockedForever, c))"

definition wg_Wait :: "'a SimpleCache \<Rightarrow> failure + 'a SimpleCache" where
  "wg_Wait c =
     (if wg c = 0 then Inr c
      else case janitor_exit c of
             Inl (p, c') \<Rightarrow> if wg c' = 0 then Inr c' else Inl p
           | Inr c' \<Rightarrow> if wg c' = 0 then Inr c' else Inl BlockedForever)"

definition Close :: "'a SimpleCache \<Rightarrow> failure + 'a SimpleCache" where
  "Close c = (case closeOnce_Do c of Inl p \<Rightarrow> Inl p | Inr c' \<Rightarrow> wg_Wait c')"

text \<open>
  The states the code can be in while no operation is under way: the \<^verbatim>\<open>Once\<close> has
  fired exactly when the channel is closed, the counter is one until the janitor has
  returned, and the janitor returns only after the channel is closed.
\<close>

definition lifecycle_ok :: "'a SimpleCache \<Rightarrow> bool" where
  "lifecycle_ok c \<longleftrightarrow>
     closeOnce c = doneClosed c \<and>
     wg c = (if janitorAt c = Returned then 0 else 1) \<and>
     (janitorAt c \<noteq> Returned \<or> doneClosed c)"

section \<open>The cache with one duration and no janitor (the earlier \<^verbatim>\<open>simple_cache.go\<close>)\<close>

text \<open>
  The file whose \<^verbatim>\<open>Set\<close> takes no duration: the cache keeps one \<^verbatim>\<open>expiryDur\<close>, and
  \<^verbatim>\<open>Get\<close> deletes the item it finds expired. Its names carry the suffix \<open>_A\<close>.
\<close>

record 'a SimpleCache_A =
  data_A :: "string \<rightharpoonup> 'a cacheItem"
  expiryDur_A :: duration

definition NewSimpleCache_A :: "duration \<Rightarrow> 'a SimpleCache_A" where
  "NewSimpleCache_A expiryDur = \<lparr>data_A = Map.empty, expiryDur_A = expiryDur\<rparr>"

definition Set_A :: "'a SimpleCache_A \<Rightarrow> time \<Rightarrow> string \<Rightarrow> 'a \<Rightarrow> 'a SimpleCache_A" where
  "Set_A c now key v =
     c\<lparr>data_A := (data_A c)(key \<mapsto> \<lparr>itemValue = v, expiryTime = time_Add now (expiryDur_A c)\<rparr>)\<rparr>"

definition Get_A :: "'a SimpleCache_A \<Rightarrow> 'a \<Rightarrow> time \<Rightarrow> string \<Rightarrow> ('a \<times> bool) \<times> 'a SimpleCache_A" where
  "Get_A c zero now key =
     (case data_A c key of
        None \<Rightarrow> ((zero, False), c)
      | Some item \<Rightarrow>
          if time_After now (expiryTime item)
          then ((zero, False), c\<lparr>data_A := (data_A c)(key := None)\<rparr>)
          else ((itemValue item, True), c))"

section \<open>What the operations compute\<close>

text \<open>
  \<^verbatim>\<open>Time.After\<close> is strict, so both \<^verbatim>\<open>Get\<close> methods answer with the stored value up
  to and including the instant \<open>expiryTime\<close> itself.
\<close>

lemma Get_result:
  "fst (Get c zero now key) =
     (case data c key of
        None \<Rightarrow> (zero, False)
      | Some item \<Rightarrow> if now \<le> expiryTime item then (itemValue item, True) else (zero, False))"
  by (simp add: Get_def time_After_def split: option.split)

lemma Get_state: "snd (Get c zero now key) = c"
  by (simp add: Get_def split: option.split)

lemma Get_A_result:
  "fst (Get_A c zero now key) =
     (case data_A c key of
        None \<Rightarrow> (zero, False)
      | Some item \<Rightarrow> if now \<le> expiryTime item then (itemValue item, True) else (zero, False))"
  by (simp add: Get_A_def time_After_def split: option.split)

lemma Get_A_state:
  "snd (Get_A c zero now key) =
     (case data_A c key of
        None \<Rightarrow> c
      | Some item \<Rightarrow>
          if now \<le> expiryTime item then c else c\<lparr>data_A := (data_A c)(key := None)\<rparr>)"
  by (simp add: Get_A_def time_After_def split: option.split)

lemma data_Set:
  "data (Set c now key d v) = (data c)(key \<mapsto> \<lparr>itemValue = v, expiryTime = now + d\<rparr>)"
  by (simp add: Set_def time_Add_def)

lemma data_Set_A:
  "data_A (Set_A c now key v) =
     (data_A c)(key \<mapsto> \<lparr>itemValue = v, expiryTime = now + expiryDur_A c\<rparr>)"
  by (simp add: Set_A_def time_Add_def)

lemma expiryDur_Set_A: "expiryDur_A (Set_A c now key v) = expiryDur_A c"
  by (simp add: Set_A_def)

text \<open>Away from the instant of expiry the reads are as the liveness rule has them.\<close>

lemma Get_before_expiry:
  "data c key = Some item \<Longrightarrow> now < expiryTime item \<Longrightarrow>
     fst (Get c zero now key) = (itemValue item, True)"
  by (simp add: Get_result)

lemma Get_past_expiry:
  "data c key = Some item \<Longrightarrow> expiryTime item < now \<Longrightarrow> fst (Get c zero now key) = (zero, False)"
  by (simp add: Get_result)

lemma Get_A_before_expiry:
  "data_A c key = Some item \<Longrightarrow> now < expiryTime item \<Longrightarrow>
     Get_A c zero now key = ((itemValue item, True), c)"
  by (simp add: Get_A_def time_After_def)

lemma Get_A_past_expiry:
  "data_A c key = Some item \<Longrightarrow> expiryTime item < now \<Longrightarrow>
     Get_A c zero now key = ((zero, False), c\<lparr>data_A := (data_A c)(key := None)\<rparr>)"
  by (simp add: Get_A_def time_After_def)

lemma Get_A_absent: "data_A c key = None \<Longrightarrow> Get_A c zero now key = ((zero, False), c)"
  by (simp add: Get_A_def)

text \<open>
  A negative duration is never retrievable, and a zero duration is not retrievable once
  the clock has moved on.
\<close>

lemma Set_negative_duration_Get:
  "d < 0 \<Longrightarrow> 0 \<le> e \<Longrightarrow> fst (Get (Set c t k d v) zero (t + e) k) = (zero, False)"
  by (simp add: Get_result data_Set)

lemma Set_zero_duration_Get_later:
  "0 < e \<Longrightarrow> fst (Get (Set c t k 0 v) zero (t + e) k) = (zero, False)"
  by (simp add: Get_result data_Set)

lemma Set_A_negative_duration_Get_A:
  "expiryDur_A c < 0 \<Longrightarrow> 0 \<le> e \<Longrightarrow> fst (Get_A (Set_A c t k v) zero (t + e) k) = (zero, False)"
  by (simp add: Get_A_result data_Set_A)

lemma Set_A_zero_duration_Get_A_later:
  "expiryDur_A c = 0 \<Longrightarrow> 0 < e \<Longrightarrow> fst (Get_A (Set_A c t k v) zero (t + e) k) = (zero, False)"
  by (simp add: Get_A_result data_Set_A)

subsection \<open>The sweep\<close>

lemma sweep_key_apply:
  "sweep_key now k m x =
     (if x = k
      then (case m k of
              None \<Rightarrow> None
            | Some it \<Rightarrow> if time_After now (expiryTime it) then None else Some it)
      else m x)"
  by (simp add: sweep_key_def split: option.split)

lemma fold_sweep_key_apply:
  "fold (sweep_key now) keys m x =
     (if x \<in> set keys
      then (case m x of
              None \<Rightarrow> None
            | Some it \<Rightarrow> if time_After now (expiryTime it) then None else Some it)
      else m x)"
proof (induction keys arbitrary: m)
  case Nil
  show ?case by simp
next
  case (Cons k keys)
  have "fold (sweep_key now) (k # keys) m x = fold (sweep_key now) keys (sweep_key now k m) x"
    by simp
  also have "\<dots> =
     (if x \<in> set keys
      then (case sweep_key now k m x of
              None \<Rightarrow> None
            | Some it \<Rightarrow> if time_After now (expiryTime it) then None else Some it)
      else sweep_key now k m x)"
    by (rule Cons.IH)
  also have "\<dots> =
     (if x \<in> set (k # keys)
      then (case m x of
              None \<Rightarrow> None
            | Some it \<Rightarrow> if time_After now (expiryTime it) then None else Some it)
      else m x)"
    by (simp add: sweep_key_apply split: option.split)
  finally show ?case .
qed

lemma data_janitor_tick:
  assumes "set keys = dom (data c)"
  shows "data (janitor_tick c now keys) x =
     (case data c x of
        None \<Rightarrow> None
      | Some it \<Rightarrow> if time_After now (expiryTime it) then None else Some it)"
proof (cases "data c x")
  case None
  then have "x \<notin> set keys" using assms by (simp add: domIff)
  with None show ?thesis by (simp add: janitor_tick_def fold_sweep_key_apply)
next
  case (Some it)
  then have "x \<in> set keys" using assms by (simp add: domI)
  with Some show ?thesis by (simp add: janitor_tick_def fold_sweep_key_apply)
qed

subsection \<open>The lifecycle\<close>

text \<open>
  With a cleanup interval that is not positive the janitor panics whatever rounds it is
  given; on a cache as \<^verbatim>\<open>NewSimpleCache\<close> makes it, the panic is that of
  \<^verbatim>\<open>time.NewTicker\<close> and the deferred \<^verbatim>\<open>Done\<close> has set the counter to zero.
\<close>

lemma janitor_start_nonpositive:
  "cleanupInterval c \<le> 0 \<Longrightarrow> 0 < wg c \<Longrightarrow>
     janitor_start c = Inl (PanicNonPositiveInterval, c\<lparr>wg := wg c - 1, janitorAt := Returned\<rparr>)"
  by (simp add: janitor_start_def NewTicker_def janitor_panic_def wg_Done_def)

lemma janitor_start_nonpositive_panics: "cleanupInterval c \<le> 0 \<Longrightarrow> isl (janitor_start c)"
  by (simp add: janitor_start_def NewTicker_def janitor_panic_def wg_Done_def)

lemma janitor_start_positive:
  "0 < cleanupInterval c \<Longrightarrow> janitor_start c = Inr (c\<lparr>janitorAt := Looping\<rparr>)"
  by (simp add: janitor_start_def NewTicker_def janitor_panic_def)

lemma janitor_nonpositive:
  "interval \<le> 0 \<Longrightarrow>
     janitor (NewSimpleCache interval) rounds =
       Inl (PanicNonPositiveInterval, (NewSimpleCache interval)\<lparr>wg := 0, janitorAt := Returned\<rparr>)"
  by (simp add: janitor_def janitor_start_nonpositive NewSimpleCache_def)

lemma janitor_nonpositive_panics: "cleanupInterval c \<le> 0 \<Longrightarrow> isl (janitor c rounds)"
  by (simp add: janitor_def janitor_start_def NewTicker_def janitor_panic_def wg_Done_def)

text \<open>
  One round on the ticker, from a janitor that has not run yet and from one inside its
  loop: the janitor makes the sweep and waits for the next round.
\<close>

lemma janitor_tick_round:
  "0 < cleanupInterval c \<Longrightarrow>
     janitor c [TickerC now keys] = Inr (janitor_tick (c\<lparr>janitorAt := Looping\<rparr>) now keys)"
  by (simp add: janitor_def janitor_start_positive)

lemma janitor_loop_tick_round:
  "janitor_loop c [TickerC now keys] = Inr (janitor_tick c now keys)"
  by simp

text \<open>
  A \<^verbatim>\<open>Close\<close> that waits for a janitor with such an interval is released by the deferred
  \<^verbatim>\<open>Done\<close> of the panicking janitor: it can return before the process has ended.
\<close>

lemma Close_released_by_panicking_janitor:
  "interval \<le> 0 \<Longrightarrow>
     Close (NewSimpleCache interval) =
       Inr ((NewSimpleCache interval)
             \<lparr>doneClosed := True, wg := 0, closeOnce := True, janitorAt := Returned\<rparr>)"
  by (simp add: Close_def closeOnce_Do_def close_done_def wg_Wait_def janitor_exit_def
      janitor_def janitor_start_def NewTicker_def janitor_panic_def wg_Done_def NewSimpleCache_def)

lemma lifecycle_ok_NewSimpleCache: "lifecycle_ok (NewSimpleCache interval)"
  by (simp add: lifecycle_ok_def NewSimpleCache_def)

lemma lifecycle_ok_Set: "lifecycle_ok (Set c now key d v) = lifecycle_ok c"
  by (simp add: lifecycle_ok_def Set_def)

lemma lifecycle_ok_janitor_tick: "lifecycle_ok (janitor_tick c now keys) = lifecycle_ok c"
  by (simp add: lifecycle_ok_def janitor_tick_def)

lemma lifecycle_ok_janitor_start:
  "lifecycle_ok c \<Longrightarrow> janitorAt c = Spawned \<Longrightarrow> janitor_start c = Inr c' \<Longrightarrow> lifecycle_ok c'"
  by (auto simp: lifecycle_ok_def janitor_start_def NewTicker_def janitor_panic_def wg_Done_def
      split: if_splits)

lemma lifecycle_ok_janitor_done:
  "lifecycle_ok c \<Longrightarrow> janitorAt c = Looping \<Longrightarrow> janitor_done c = Inr c' \<Longrightarrow> lifecycle_ok c'"
  by (auto simp: lifecycle_ok_def janitor_done_def wg_Done_def split: if_splits)

lemma Close_lifecycle_ok:
  assumes "lifecycle_ok c" and "0 < cleanupInterval c"
  shows "Close c = Inr (c\<lparr>doneClosed := True, closeOnce := True, wg := 0, janitorAt := Returned\<rparr>)"
proof (cases "janitorAt c")
  case Spawned
  with assms show ?thesis
    by (cases "doneClosed c")
       (simp_all add: lifecycle_ok_def Close_def closeOnce_Do_def close_done_def wg_Wait_def
          janitor_exit_def janitor_def janitor_start_def NewTicker_def janitor_panic_def janitor_done_def wg_Done_def)
next
  case Looping
  with assms show ?thesis
    by (cases "doneClosed c")
       (simp_all add: lifecycle_ok_def Close_def closeOnce_Do_def close_done_def wg_Wait_def
          janitor_exit_def janitor_done_def wg_Done_def)
next
  case Returned
  with assms show ?thesis
    by (simp add: lifecycle_ok_def Close_def closeOnce_Do_def close_done_def wg_Wait_def)
qed

lemma lifecycle_ok_Close:
  "lifecycle_ok c \<Longrightarrow> 0 < cleanupInterval c \<Longrightarrow> Close c = Inr c' \<Longrightarrow> lifecycle_ok c'"
  by (auto simp: Close_lifecycle_ok lifecycle_ok_def)

lemma Close_returns_closed:
  assumes "Close c = Inr c'"
  shows "closeOnce c' \<and> wg c' = 0 \<and> data c' = data c"
  using assms
  by (auto simp: Close_def closeOnce_Do_def close_done_def wg_Wait_def janitor_exit_def
      janitor_def janitor_start_def NewTicker_def janitor_panic_def janitor_done_def wg_Done_def
      split: if_splits sum.splits goroutine.splits)

text \<open>
  \<^verbatim>\<open>Close\<close> and the transitions on \<open>data\<close> do not see each other: a sweep or a \<^verbatim>\<open>Set\<close>
  before \<^verbatim>\<open>Close\<close> gives the cache that the same sweep or \<^verbatim>\<open>Set\<close> gives after it.
\<close>

lemma Close_janitor_tick:
  "Close (janitor_tick c now keys) =
     (case Close c of Inl p \<Rightarrow> Inl p | Inr c' \<Rightarrow> Inr (janitor_tick c' now keys))"
  by (cases "janitorAt c")
     (simp_all add: Close_def closeOnce_Do_def close_done_def wg_Wait_def janitor_exit_def
      janitor_def janitor_start_def NewTicker_def janitor_panic_def janitor_done_def wg_Done_def janitor_tick_def)

lemma Close_Set:
  "Close (Set c now key d v) =
     (case Close c of Inl p \<Rightarrow> Inl p | Inr c' \<Rightarrow> Inr (Set c' now key d v))"
  by (cases "janitorAt c")
     (simp_all add: Close_def closeOnce_Do_def close_done_def wg_Wait_def janitor_exit_def
      janitor_def janitor_start_def NewTicker_def janitor_panic_def janitor_done_def wg_Done_def Set_def)

lemma Close_of_closed:
  assumes "closeOnce c" and "wg c = 0"
  shows "Close c = Inr c \<and> closeOnce_Do c = Inr c \<and> wg_Wait c = Inr c"
  using assms by (simp add: Close_def closeOnce_Do_def wg_Wait_def)

section \<open>The claims\<close>

subsection \<open>C1: liveness at read time\<close>

text \<open>
  Claim C1: an entry is live exactly while the read time is strictly before its expiry;
  \<^verbatim>\<open>Get\<close> on a present entry returns the value and \<open>True\<close> when \<open>t < expiresAt\<close>, and
  the zero value and \<open>False\<close> when \<open>t \<ge> expiresAt\<close>, in both files.

  The two strict cases are \<open>Get_before_expiry\<close>, \<open>Get_past_expiry\<close> and their \<open>_A\<close>
  forms. At \<open>t = expiresAt\<close> the code answers otherwise: an entry written at instant 3
  for 7 nanoseconds expires at instant 10, and a read at instant 10 returns the value
  and \<open>True\<close>, because \<^verbatim>\<open>time.Now().After(item.expiryTime)\<close> is false there.
\<close>

theorem Get_at_expiry_instant_found:
  "data (Set (NewSimpleCache 1000) 3 ''k'' 7 (42::nat)) ''k''
     = Some \<lparr>itemValue = 42, expiryTime = 10\<rparr> \<and>
   fst (Get (Set (NewSimpleCache 1000) 3 ''k'' 7 (42::nat)) 0 10 ''k'') = (42, True) \<and>
   data_A (Set_A (NewSimpleCache_A 7) 3 ''k'' (42::nat)) ''k''
     = Some \<lparr>itemValue = 42, expiryTime = 10\<rparr> \<and>
   fst (Get_A (Set_A (NewSimpleCache_A 7) 3 ''k'' (42::nat)) 0 10 ''k'') = (42, True)"
  by (simp add: Get_result Get_A_result data_Set data_Set_A NewSimpleCache_def
      NewSimpleCache_A_def)

subsection \<open>C2: no operation is fatal\<close>

text \<open>
  Claim C2: every operation, the construction with a zero or negative cleanup interval
  included, is total and never fatal to the process.

  \<^verbatim>\<open>NewSimpleCache(0)\<close> returns, and the janitor goroutine it has started panics in
  \<^verbatim>\<open>time.NewTicker\<close> as soon as it runs, whatever rounds would follow; so does the
  janitor of a cache made with a negative interval. The deferred \<^verbatim>\<open>Done\<close> runs, and
  the panic ends the process.
\<close>

theorem janitor_panics_on_nonpositive_interval:
  "janitor_start (NewSimpleCache 0 :: string SimpleCache) =
     Inl (PanicNonPositiveInterval, (NewSimpleCache 0)\<lparr>wg := 0, janitorAt := Returned\<rparr>) \<and>
   janitor (NewSimpleCache 0 :: string SimpleCache) rounds =
     Inl (PanicNonPositiveInterval, (NewSimpleCache 0)\<lparr>wg := 0, janitorAt := Returned\<rparr>) \<and>
   janitor (NewSimpleCache (- 1) :: string SimpleCache) rounds =
     Inl (PanicNonPositiveInterval, (NewSimpleCache (- 1))\<lparr>wg := 0, janitorAt := Returned\<rparr>)"
  by (simp add: janitor_def janitor_start_def NewTicker_def janitor_panic_def wg_Done_def
      NewSimpleCache_def)

subsection \<open>C3: round trip\<close>

text \<open>
  Claim C3: with a positive duration (the configured one in the file without janitor,
  the one of the call in the file with janitor), \<^verbatim>\<open>Set(k, v)\<close> followed at once by
  \<^verbatim>\<open>Get(k)\<close> returns \<open>(v, True)\<close>.

  \<open>e\<close> is the time that passes between the two clock readings; "at once" is any
  \<open>e\<close> from zero up to, and not including, the duration.
\<close>

theorem Set_then_Get_roundtrip:
  assumes "0 < d" and "0 \<le> e" and "e < d"
  shows "fst (Get (Set c t k d v) zero (t + e) k) = (v, True) \<and>
         (expiryDur_A a = d \<longrightarrow> fst (Get_A (Set_A a t k v) zero (t + e) k) = (v, True))"
  using assms by (simp add: Get_result Get_A_result data_Set data_Set_A)

theorem Set_then_Get_roundtrip_witness:
  "(0::int) < 10 \<and> (0::int) \<le> 0 \<and> (0::int) < 10 \<and>
   fst (Get (Set (NewSimpleCache 5) 100 ''k'' 10 ''v'') [] (100 + 0) ''k'') = (''v'', True) \<and>
   expiryDur_A (NewSimpleCache_A 10 :: string SimpleCache_A) = 10 \<and>
   fst (Get_A (Set_A (NewSimpleCache_A 10) 100 ''k'' ''v'') [] (100 + 0) ''k'') = (''v'', True)"
  using Set_then_Get_roundtrip [of 10 0 "NewSimpleCache 5" 100 "''k''" "''v''" "[]"
      "NewSimpleCache_A 10"]
  by (simp add: NewSimpleCache_A_def)

subsection \<open>C4: zero and negative durations\<close>

text \<open>
  Claim C4: a \<^verbatim>\<open>Set\<close> under a zero or negative duration followed at once by \<^verbatim>\<open>Get\<close>
  returns the zero value and \<open>False\<close>.

  For a negative duration this is \<open>Set_negative_duration_Get\<close>, and for a zero duration
  with a clock that has moved on it is \<open>Set_zero_duration_Get_later\<close>. With a zero
  duration and the same clock reading in \<^verbatim>\<open>Set\<close> and \<^verbatim>\<open>Get\<close> the code returns the value:
  the inputs are those of \<^verbatim>\<open>TestSimpleCache_DurationSetToZeroWillNotCache\<close>, which
  expects not to find the key.
\<close>

theorem zero_duration_Get_at_same_instant_found:
  "fst (Get (Set (NewSimpleCache 1000) 5 ''key1'' 0 ''value1'') [] 5 ''key1'')
     = (''value1'', True) \<and>
   fst (Get_A (Set_A (NewSimpleCache_A 0) 5 ''key1'' ''value1'') [] 5 ''key1'')
     = (''value1'', True)"
  by (simp add: Get_result Get_A_result data_Set data_Set_A NewSimpleCache_def
      NewSimpleCache_A_def)

subsection \<open>C5: the sweep\<close>

text \<open>
  Claim C5: a sweep of the janitor deletes exactly the entries whose expiry has passed at
  the time of the sweep and leaves every other entry as it is; so after a sweep at \<open>now\<close>
  no entry with an expiry earlier than \<open>now\<close> is left, and when the expiry of every
  entry has passed, the map is empty after the sweep, with no call of \<^verbatim>\<open>Get\<close>.

  The sweep is one round of the janitor on its ticker, from the start of the goroutine
  (\<open>janitor\<close>) or from inside its loop (\<open>janitor_loop\<close>); \<open>c'\<close> is the cache when the
  janitor waits for the next round. The sweep may visit the keys of the map in any
  order \<open>keys\<close>.
\<close>

theorem janitor_sweep_deletes_exactly_the_expired:
  assumes "set keys = dom (data c)"
    and "janitor c [TickerC now keys] = Inr c' \<or> janitor_loop c [TickerC now keys] = Inr c'"
  shows "(\<forall>x. data c' x =
            (case data c x of
               None \<Rightarrow> None
             | Some it \<Rightarrow> if time_After now (expiryTime it) then None else Some it)) \<and>
         (\<forall>x it. data c' x = Some it \<longrightarrow> \<not> expiryTime it < now) \<and>
         ((\<forall>x it. data c x = Some it \<longrightarrow> expiryTime it < now) \<longrightarrow>
            data c' = Map.empty \<and> card (dom (data c')) = 0)"
proof -
  have swept: "data c' x =
            (case data c x of
               None \<Rightarrow> None
             | Some it \<Rightarrow> if time_After now (expiryTime it) then None else Some it)" for x
    using assms(2)
  proof
    assume run: "janitor c [TickerC now keys] = Inr c'"
    then have "c' = janitor_tick (c\<lparr>janitorAt := Looping\<rparr>) now keys"
      by (auto simp: janitor_def janitor_start_def NewTicker_def janitor_panic_def wg_Done_def
          split: if_splits sum.splits)
    moreover have "set keys = dom (data (c\<lparr>janitorAt := Looping\<rparr>))"
      using assms(1) by simp
    ultimately show ?thesis
      using data_janitor_tick [of keys "c\<lparr>janitorAt := Looping\<rparr>" now x] by simp
  next
    assume "janitor_loop c [TickerC now keys] = Inr c'"
    then have "c' = janitor_tick c now keys"
      by simp
    then show ?thesis
      by (simp add: data_janitor_tick [OF assms(1)])
  qed
  show ?thesis
  proof (intro conjI allI impI)
    fix x
    show "data c' x =
            (case data c x of
               None \<Rightarrow> None
             | Some it \<Rightarrow> if time_After now (expiryTime it) then None else Some it)"
      by (rule swept)
  next
    fix x it
    assume "data c' x = Some it"
    then show "\<not> expiryTime it < now"
      by (simp add: swept time_After_def split: option.splits if_splits)
  next
    assume all: "\<forall>x it. data c x = Some it \<longrightarrow> expiryTime it < now"
    show e: "data c' = Map.empty"
    proof
      fix x
      show "data c' x = None"
        using all by (simp add: swept time_After_def split: option.splits)
    qed
    show "card (dom (data c')) = 0"
      by (simp add: e)
  qed
qed

theorem janitor_sweep_deletes_exactly_the_expired_witness:
  "set [''b'', ''a''] = dom (data (Set (Set (NewSimpleCache 5) 0 ''a'' 10 (1::nat)) 0 ''b'' 100 2)) \<and>
   janitor (Set (Set (NewSimpleCache 5) 0 ''a'' 10 (1::nat)) 0 ''b'' 100 2) [TickerC 50 [''b'', ''a'']]
     = Inr (janitor_tick ((Set (Set (NewSimpleCache 5) 0 ''a'' 10 (1::nat)) 0 ''b'' 100 2)
              \<lparr>janitorAt := Looping\<rparr>) 50 [''b'', ''a'']) \<and>
   data (janitor_tick ((Set (Set (NewSimpleCache 5) 0 ''a'' 10 (1::nat)) 0 ''b'' 100 2)
              \<lparr>janitorAt := Looping\<rparr>) 50 [''b'', ''a'']) ''a''
     = None \<and>
   data (janitor_tick ((Set (Set (NewSimpleCache 5) 0 ''a'' 10 (1::nat)) 0 ''b'' 100 2)
              \<lparr>janitorAt := Looping\<rparr>) 50 [''b'', ''a'']) ''b''
     = Some \<lparr>itemValue = 2, expiryTime = 100\<rparr> \<and>
   janitor_loop (Set (Set (NewSimpleCache 5) 0 ''a'' 10 (1::nat)) 0 ''b'' 100 2)
       [TickerC 200 [''b'', ''a'']]
     = Inr (janitor_tick (Set (Set (NewSimpleCache 5) 0 ''a'' 10 (1::nat)) 0 ''b'' 100 2)
              200 [''b'', ''a'']) \<and>
   data (janitor_tick (Set (Set (NewSimpleCache 5) 0 ''a'' 10 (1::nat)) 0 ''b'' 100 2)
              200 [''b'', ''a''])
     = Map.empty"
proof -
  let ?c = "Set (Set (NewSimpleCache 5) 0 ''a'' 10 (1::nat)) 0 ''b'' 100 2"
  let ?c50 = "janitor_tick (?c\<lparr>janitorAt := Looping\<rparr>) 50 [''b'', ''a'']"
  let ?c200 = "janitor_tick ?c 200 [''b'', ''a'']"
  have keys: "set [''b'', ''a''] = dom (data ?c)"
    by (simp add: data_Set NewSimpleCache_def)
  have all: "\<forall>x it. data ?c x = Some it \<longrightarrow> expiryTime it < 200"
    by (simp add: data_Set NewSimpleCache_def)
  have run50: "janitor ?c [TickerC 50 [''b'', ''a'']] = Inr ?c50"
    by (simp add: janitor_def janitor_start_def NewTicker_def janitor_panic_def Set_def NewSimpleCache_def)
  have run200: "janitor_loop ?c [TickerC 200 [''b'', ''a'']] = Inr ?c200"
    by simp
  note at50 = janitor_sweep_deletes_exactly_the_expired [OF keys disjI1, OF run50]
  note at200 = janitor_sweep_deletes_exactly_the_expired [OF keys disjI2, OF run200]
  have a: "data ?c50 ''a'' = None"
    using at50 [THEN conjunct1, THEN spec, of "''a''"]
    by (simp add: data_Set NewSimpleCache_def time_After_def)
  have b: "data ?c50 ''b'' = Some \<lparr>itemValue = 2, expiryTime = 100\<rparr>"
    using at50 [THEN conjunct1, THEN spec, of "''b''"]
    by (simp add: data_Set NewSimpleCache_def time_After_def)
  have e: "data ?c200 = Map.empty"
    using at200 [THEN conjunct2, THEN conjunct2] all
    by (rule mp [THEN conjunct1])
  from keys run50 a b run200 e
  show ?thesis by (intro conjI)
qed

subsection \<open>C6: Get of the cache with janitor changes nothing\<close>

text \<open>
  Claim C6: in the file with the janitor \<^verbatim>\<open>Get\<close> never changes the map: for every key
  and every cache, also when the key is present and expired, the cache after the call is
  the cache before it.
\<close>

theorem Get_leaves_cache_unchanged:
  "snd (Get c zero now key) = c \<and> data (snd (Get c zero now key)) = data c"
  by (simp add: Get_state)


subsection \<open>C7: the later write wins\<close>

text \<open>
  Claim C7: \<^verbatim>\<open>Set(k, v1)\<close>, then \<^verbatim>\<open>Set(k, v2)\<close>, then \<^verbatim>\<open>Get(k)\<close> returns \<open>(v2, True)\<close>;
  \<^verbatim>\<open>Set\<close> is an unconditional upsert, the later write wins, and the expiry of the entry
  is the later write's clock reading plus its duration, whatever the earlier expiry was.

  Stated for every duration and every time of the read it does not hold: the second
  write may carry a negative duration, or the read may come after the second entry has
  expired.
\<close>

theorem Set_Set_Get_not_found:
  "fst (Get (Set (Set (NewSimpleCache 1000) 1 ''k'' 5 ''v1'') 2 ''k'' (- 1) ''v2'') [] 2 ''k'')
     \<noteq> (''v2'', True) \<and>
   fst (Get (Set (Set (NewSimpleCache 1000) 1 ''k'' 5 ''v1'') 2 ''k'' 5 ''v2'') [] 8 ''k'')
     \<noteq> (''v2'', True) \<and>
   fst (Get_A (Set_A (Set_A (NewSimpleCache_A 5) 1 ''k'' ''v1'') 2 ''k'' ''v2'') [] 8 ''k'')
     \<noteq> (''v2'', True)"
  by (simp add: Get_result Get_A_result data_Set data_Set_A expiryDur_Set_A NewSimpleCache_def
      NewSimpleCache_A_def)

text \<open>
  Claim C7, with the read before the later write's clock reading plus duration: the two
  writes leave the cache that the second write alone leaves, the entry under \<open>k\<close> is
  \<open>v2\<close> with expiry \<open>t2 + d2\<close>, and \<^verbatim>\<open>Get\<close> returns \<open>(v2, True)\<close>, in both files.
\<close>

theorem Set_Set_Get_later_write_wins:
  assumes "t3 < t2 + d2"
  shows "fst (Get (Set (Set c t1 k d1 v1) t2 k d2 v2) zero t3 k) = (v2, True) \<and>
         data (Set (Set c t1 k d1 v1) t2 k d2 v2) k = Some \<lparr>itemValue = v2, expiryTime = t2 + d2\<rparr> \<and>
         Set (Set c t1 k d1 v1) t2 k d2 v2 = Set c t2 k d2 v2 \<and>
         (expiryDur_A a = d2 \<longrightarrow>
            fst (Get_A (Set_A (Set_A a t1 k v1) t2 k v2) zero t3 k) = (v2, True) \<and>
            data_A (Set_A (Set_A a t1 k v1) t2 k v2) k = Some \<lparr>itemValue = v2, expiryTime = t2 + d2\<rparr> \<and>
            Set_A (Set_A a t1 k v1) t2 k v2 = Set_A a t2 k v2)"
  using assms
  by (simp add: Get_result Get_A_result data_Set data_Set_A expiryDur_Set_A)
     (simp add: Set_def Set_A_def)

theorem Set_Set_Get_later_write_wins_witness:
  "(3::int) < 2 + 5 \<and>
   fst (Get (Set (Set (NewSimpleCache 1000) 1 ''k'' 1 ''v1'') 2 ''k'' 5 ''v2'') [] 3 ''k'')
     = (''v2'', True) \<and>
   data (Set (Set (NewSimpleCache 1000) 1 ''k'' 1 ''v1'') 2 ''k'' 5 ''v2'') ''k''
     = Some \<lparr>itemValue = ''v2'', expiryTime = 2 + 5\<rparr> \<and>
   expiryDur_A (NewSimpleCache_A 5 :: string SimpleCache_A) = 5 \<and>
   fst (Get_A (Set_A (Set_A (NewSimpleCache_A 5) 1 ''k'' ''v1'') 2 ''k'' ''v2'') [] 3 ''k'')
     = (''v2'', True)"
proof -
  have h: "(3::int) < 2 + 5"
    by simp
  have a: "expiryDur_A (NewSimpleCache_A 5 :: string SimpleCache_A) = 5"
    by (simp add: NewSimpleCache_A_def)
  show ?thesis
    using h a
      Set_Set_Get_later_write_wins [OF h, of "NewSimpleCache 1000" 1 "''k''" 1 "''v1''" "''v2''"
        "[]" "NewSimpleCache_A 5"]
    by blast
qed

subsection \<open>C8: Get of the cache without janitor\<close>

text \<open>
  Claim C8: in the file without janitor, \<^verbatim>\<open>Get\<close> on a key that is present and expired
  (\<open>now \<ge> expiresAt\<close>) removes the entry and returns not-found; on an absent key it
  returns not-found; otherwise it returns the stored value and \<open>True\<close>.

  The absent key is \<open>Get_A_absent\<close>, the entry whose expiry lies before \<open>now\<close> is
  \<open>Get_A_past_expiry\<close>, the entry whose expiry lies after \<open>now\<close> is
  \<open>Get_A_before_expiry\<close>. At \<open>now = expiresAt\<close> the code keeps the entry and returns
  its value.
\<close>

theorem Get_A_at_expiry_instant_keeps_entry:
  "Get_A (Set_A (NewSimpleCache_A 7) 3 ''k'' ''v'') [] 10 ''k''
     = ((''v'', True), Set_A (NewSimpleCache_A 7) 3 ''k'' ''v'') \<and>
   data_A (snd (Get_A (Set_A (NewSimpleCache_A 7) 3 ''k'' ''v'') [] 10 ''k'')) ''k''
     = Some \<lparr>itemValue = ''v'', expiryTime = 10\<rparr>"
  by (simp add: Get_A_def time_After_def data_Set_A NewSimpleCache_A_def)

subsection \<open>C9: Close twice\<close>

text \<open>
  Claim C9: a second \<^verbatim>\<open>Close\<close> is safe: it does not panic, it changes nothing, and it
  returns without waiting.

  Whenever a \<^verbatim>\<open>Close\<close> has returned the cache \<open>c'\<close>, a further \<^verbatim>\<open>Close\<close> returns \<open>c'\<close>
  again: \<^verbatim>\<open>closeOnce.Do\<close> does not run \<^verbatim>\<open>close(c.done)\<close>, and \<^verbatim>\<open>wg.Wait()\<close> finds
  the counter at zero. And the first \<^verbatim>\<open>Close\<close> does return, on every cache in a state
  of the lifecycle whose cleanup interval is positive.
\<close>

theorem Close_twice:
  "(\<forall>c'. Close c = Inr c' \<longrightarrow>
      Close c' = Inr c' \<and> closeOnce_Do c' = Inr c' \<and> wg_Wait c' = Inr c' \<and> wg c' = 0) \<and>
   (lifecycle_ok c \<and> 0 < cleanupInterval c \<longrightarrow> (\<exists>c'. Close c = Inr c'))"
proof (intro conjI allI impI)
  fix c'
  assume "Close c = Inr c'"
  then have closed: "closeOnce c'" "wg c' = 0"
    using Close_returns_closed by blast+
  then show "Close c' = Inr c'" "closeOnce_Do c' = Inr c'" "wg_Wait c' = Inr c'" "wg c' = 0"
    using Close_of_closed by blast+
next
  assume "lifecycle_ok c \<and> 0 < cleanupInterval c"
  then show "\<exists>c'. Close c = Inr c'"
    using Close_lifecycle_ok by blast
qed

theorem Close_twice_witness:
  "lifecycle_ok (Set (NewSimpleCache 5) 1 ''k'' 10 ''v'') \<and>
   0 < cleanupInterval (Set (NewSimpleCache 5) 1 ''k'' 10 ''v'') \<and>
   (\<exists>c'. Close (Set (NewSimpleCache 5) 1 ''k'' 10 ''v'') = Inr c' \<and> Close c' = Inr c' \<and> wg c' = 0)"
proof -
  let ?c = "Set (NewSimpleCache 5) 1 ''k'' 10 ''v''"
  have ok: "lifecycle_ok ?c \<and> 0 < cleanupInterval ?c"
    by (simp add: lifecycle_ok_def Set_def NewSimpleCache_def)
  with Close_twice [of ?c] obtain c' where c': "Close ?c = Inr c'"
    by blast
  with Close_twice [of ?c] have "Close c' = Inr c' \<and> wg c' = 0"
    by blast
  with ok c' show ?thesis by blast
qed

subsection \<open>C10: Set and Get after Close\<close>

text \<open>
  Claim C10: \<^verbatim>\<open>Set\<close> and \<^verbatim>\<open>Get\<close> after \<^verbatim>\<open>Close\<close> behave as before it: a \<^verbatim>\<open>Set\<close> with a
  positive duration \<open>d\<close> after \<^verbatim>\<open>Close\<close>, followed by \<^verbatim>\<open>Get\<close> within \<open>d\<close>, returns
  \<open>(v, True)\<close>; only the background cleanup is gone.

  \<open>c'\<close> is the cache that \<^verbatim>\<open>Close\<close> returns for \<open>c\<close>. A \<^verbatim>\<open>Set\<close> after the \<^verbatim>\<open>Close\<close>
  gives the cache that the same \<^verbatim>\<open>Set\<close> before the \<^verbatim>\<open>Close\<close> gives, it writes the same
  map on \<open>c'\<close> as on \<open>c\<close>, a \<^verbatim>\<open>Get\<close> answers the same on both, and the janitor of \<open>c'\<close>
  has returned. \<open>e\<close> is the time between the clock readings of \<^verbatim>\<open>Set\<close> and \<^verbatim>\<open>Get\<close>.
\<close>

theorem Set_Get_after_Close:
  assumes "Close c = Inr c'" and "0 < d" and "0 \<le> e" and "e < d"
  shows "fst (Get (Set c' t k d v) zero (t + e) k) = (v, True) \<and>
         Close (Set c t k d v) = Inr (Set c' t k d v) \<and>
         data (Set c' t k d v) = data (Set c t k d v) \<and>
         fst (Get c' zero now key) = fst (Get c zero now key) \<and>
         (lifecycle_ok c \<longrightarrow> janitorAt (Set c' t k d v) = Returned)"
proof (intro conjI impI)
  show "Close (Set c t k d v) = Inr (Set c' t k d v)"
    using assms(1) by (simp add: Close_Set)
  show "fst (Get (Set c' t k d v) zero (t + e) k) = (v, True)"
    using assms(2-4) by (simp add: Get_result data_Set)
  have d: "data c' = data c"
    using assms(1) Close_returns_closed by blast
  then show "data (Set c' t k d v) = data (Set c t k d v)"
    by (simp add: data_Set)
  show "fst (Get c' zero now key) = fst (Get c zero now key)"
    by (simp add: Get_result d)
next
  assume "lifecycle_ok c"
  with assms(1) show "janitorAt (Set c' t k d v) = Returned"
    by (auto simp: Set_def lifecycle_ok_def Close_def closeOnce_Do_def close_done_def wg_Wait_def
        janitor_exit_def janitor_def janitor_start_def NewTicker_def janitor_panic_def janitor_done_def wg_Done_def
        split: if_splits sum.splits goroutine.splits)
qed

theorem Set_Get_after_Close_witness:
  "Close (NewSimpleCache 5 :: string SimpleCache)
     = Inr (NewSimpleCache 5 \<lparr>doneClosed := True, closeOnce := True, wg := 0, janitorAt := Returned\<rparr>) \<and>
   (0::int) < 10 \<and> (0::int) \<le> 3 \<and> (3::int) < 10 \<and>
   fst (Get (Set (NewSimpleCache 5 \<lparr>doneClosed := True, closeOnce := True, wg := 0, janitorAt := Returned\<rparr>)
          100 ''k'' 10 ''v'') [] (100 + 3) ''k'') = (''v'', True)"
proof -
  let ?c = "NewSimpleCache 5 :: string SimpleCache"
  let ?c' = "?c\<lparr>doneClosed := True, closeOnce := True, wg := 0, janitorAt := Returned\<rparr>"
  have cl: "Close ?c = Inr ?c'"
    using Close_lifecycle_ok [OF lifecycle_ok_NewSimpleCache, of 5] by (simp add: NewSimpleCache_def)
  have "fst (Get (Set ?c' 100 ''k'' 10 ''v'') [] (100 + 3) ''k'') = (''v'', True)"
    using Set_Get_after_Close [OF cl, of 10 3 100 "''k''" "''v''" "[]"] by simp
  with cl show ?thesis by simp
qed

end
